theory Spec2Isabelle
  imports Complex_Main "HOL-Library.AList" "HOL-Library.Product_Lexorder"
begin

section \<open>Texts, substring tests and the regular expressions of the rule tables\<close>

text \<open>
  File contents are Python \<open>str\<close> values.  They are modelled as \<open>string\<close>, one \<open>char\<close> per
  code point, so the model covers texts whose code points are below 256.  \<open>needle in content\<close>
  is \<open>contains needle content\<close>, and \<open>content.lower()\<close> is \<open>lower content\<close>.
\<close>

fun starts_with :: "string \<Rightarrow> string \<Rightarrow> bool" where
  "starts_with [] s = True"
| "starts_with (p # ps) [] = False"
| "starts_with (p # ps) (c # s) = (if p = c then starts_with ps s else False)"

fun contains :: "string \<Rightarrow> string \<Rightarrow> bool" where
  "contains needle [] = starts_with needle []"
| "contains needle (c # s) = (if starts_with needle (c # s) then True else contains needle s)"

definition to_lower :: "char \<Rightarrow> char" where
  "to_lower c =
     (let n = (of_char c :: nat)
      in if (65 \<le> n \<and> n \<le> 90) \<or> (192 \<le> n \<and> n \<le> 222 \<and> n \<noteq> 215)
         then char_of (n + 32) else c)"

definition lower :: "string \<Rightarrow> string" where
  "lower s = map to_lower s"

text \<open>
  The rules are regular expressions handed to \<open>re.findall\<close> and \<open>re.search\<close> with
  \<open>re.IGNORECASE\<close>; the checks only ask whether a match exists.  The patterns of the source
  are sequences of single-character atoms (a literal, \<open>\s\<close>, \<open>.\<close>, a bracket class), each
  taken once or repeated at least \<open>n\<close> times (\<open>*\<close> is \<open>AtLeast 0\<close>, \<open>{20,}\<close> is
  \<open>AtLeast 20\<close>).  \<open>search r s\<close> holds when some substring of \<open>s\<close> matches \<open>r\<close>, letters
  compared without case.
\<close>

datatype atom = Lit char | Space | Dot | OneOf "char list" | NoneOf "char list"

datatype item = One atom | AtLeast nat atom

type_synonym regex = "item list"

definition is_space :: "char \<Rightarrow> bool" where
  "is_space c =
     (let n = (of_char c :: nat)
      in (9 \<le> n \<and> n \<le> 13) \<or> (28 \<le> n \<and> n \<le> 32) \<or> n = 133 \<or> n = 160)"

fun atom_match :: "atom \<Rightarrow> char \<Rightarrow> bool" where
  "atom_match (Lit a) c = (to_lower a = to_lower c)"
| "atom_match Space c = is_space c"
| "atom_match Dot c = (c \<noteq> CHR 0x0A)"
| "atom_match (OneOf cs) c = (to_lower c \<in> set (map to_lower cs))"
| "atom_match (NoneOf cs) c = (to_lower c \<notin> set (map to_lower cs))"

fun match_here :: "regex \<Rightarrow> string \<Rightarrow> bool" where
  "match_here [] s = True"
| "match_here (One a # r) [] = False"
| "match_here (One a # r) (c # s) = (if atom_match a c then match_here r s else False)"
| "match_here (AtLeast 0 a # r) [] = match_here r []"
| "match_here (AtLeast 0 a # r) (c # s) =
     (if match_here r (c # s) then True
      else if atom_match a c then match_here (AtLeast 0 a # r) s else False)"
| "match_here (AtLeast (Suc n) a # r) [] = False"
| "match_here (AtLeast (Suc n) a # r) (c # s) =
     (if atom_match a c then match_here (AtLeast n a # r) s else False)"

fun search :: "regex \<Rightarrow> string \<Rightarrow> bool" where
  "search r [] = match_here r []"
| "search r (c # s) = (if match_here r (c # s) then True else search r s)"

definition lits :: "string \<Rightarrow> regex" where
  "lits s = map (\<lambda>c. One (Lit c)) s"

definition quote :: atom where
  "quote = OneOf [CHR 0x22, CHR 0x27]"

definition not_quote :: atom where
  "not_quote = NoneOf [CHR 0x22, CHR 0x27]"

text \<open>
  \<open>hardcoded_patterns\<close> of \<open>check_environment_variables\<close>: the pattern
  \<^verbatim>\<open>token\s*=\s*["\'][^"\']{20,}["\']\<close>, and the same for \<open>key\<close> (16), \<open>password\<close> (8) and
  \<open>secret\<close> (12).
\<close>

definition assigned_literal :: "string \<Rightarrow> nat \<Rightarrow> regex" where
  "assigned_literal word n =
     lits word @ [AtLeast 0 Space, One (Lit CHR ''=''), AtLeast 0 Space,
                  One quote, AtLeast n not_quote, One quote]"

definition hardcoded_patterns :: "(regex \<times> string) list" where
  "hardcoded_patterns =
     [(assigned_literal ''token'' 20, ''Hardcoded token''),
      (assigned_literal ''key'' 16, ''Hardcoded key''),
      (assigned_literal ''password'' 8, ''Hardcoded password''),
      (assigned_literal ''secret'' 12, ''Hardcoded secret'')]"

text \<open>
  \<open>sensitive_log_patterns\<close> of \<open>check_logging_security\<close>: \<^verbatim>\<open>log.*password\<close>,
  \<^verbatim>\<open>log.*token\<close>, \<^verbatim>\<open>log.*key\<close>, \<^verbatim>\<open>println!.*password\<close> and
  \<^verbatim>\<open>console\.log.*password\<close>.
\<close>

definition then_later :: "string \<Rightarrow> string \<Rightarrow> regex" where
  "then_later first second = lits first @ [AtLeast 0 Dot] @ lits second"

definition sensitive_log_patterns :: "(regex \<times> string) list" where
  "sensitive_log_patterns =
     [(then_later ''log'' ''password'', ''Password in logs''),
      (then_later ''log'' ''token'', ''Token in logs''),
      (then_later ''log'' ''key'', ''Key in logs''),
      (then_later ''println!'' ''password'', ''Password in Rust logs''),
      (then_later ''console.log'' ''password'', ''Password in JS logs'')]"

section \<open>The project snapshot and the results accumulator\<close>

text \<open>
  A path is the list of its components below the project root, so \<open>self.mcp_root / "src"\<close> is
  \<open>[''mcp-server'', ''src'']\<close>, and \<open>path_str\<close> renders it relative to the root.  The snapshot
  is what the file system and the libraries answer during one run: \<open>exists\<close>, \<open>st_mode\<close>
  (the value of \<open>stat().st_mode\<close>), \<open>read_text\<close>, \<open>rglob\<close> and \<open>glob\<close> (the paths found,
  in the order of the traversal), \<open>str_path\<close> (the text of \<open>project_root / p\<close>) and
  \<open>json_loads\<close>.  An exception carries its message.  Output printed to the terminal is not
  modelled.
\<close>

type_synonym path = "string list"

datatype exn = UnicodeDecodeError string | PermissionError string | OtherException string

fun exn_str :: "exn \<Rightarrow> string" where
  "exn_str (UnicodeDecodeError m) = m"
| "exn_str (PermissionError m) = m"
| "exn_str (OtherException m) = m"

datatype json =
  JNull | JBool bool | JInt int | JFloat rat | JStr string | JArr "json list"
  | JObj "(string \<times> json) list"

record snapshot =
  exists :: "path \<Rightarrow> bool"
  st_mode :: "path \<Rightarrow> nat"
  read_text :: "path \<Rightarrow> exn + string"
  rglob :: "path \<Rightarrow> string \<Rightarrow> path list"
  glob :: "path \<Rightarrow> string \<Rightarrow> path list"
  str_path :: "path \<Rightarrow> string"
  json_loads :: "string \<Rightarrow> exn + json"

fun path_str :: "path \<Rightarrow> string" where
  "path_str [] = ''.''"
| "path_str [x] = x"
| "path_str (x # y # ys) = x @ ''/'' @ path_str (y # ys)"

definition mcp_root :: path where
  "mcp_root = [''mcp-server'']"

record issue =
  component :: string
  severity :: string
  message :: string
  recommendation :: string

record advice =
  advice_component :: string
  advice_message :: string

text \<open>
  \<open>self.results\<close>: the \<open>scores\<close> dictionary keeps insertion order, so it is an association
  list written with \<open>AList.update\<close>; the keys \<open>overall_score\<close>, \<open>max_score\<close> and
  \<open>percentage\<close> exist only once \<open>generate_report\<close> has set them.  Scores are Python integers;
  the percentage is a float, idealised as an exact rational.
\<close>

record results =
  timestamp :: string
  overall_status :: string
  scores :: "(string \<times> int) list"
  issues :: "issue list"
  recommendations :: "advice list"
  overall_score :: "int option"
  max_score :: "int option"
  percentage :: "rat option"

definition init_results :: results where
  "init_results =
     \<lparr>timestamp = [], overall_status = ''pending'', scores = [], issues = [],
      recommendations = [], overall_score = None, max_score = None, percentage = None\<rparr>"

definition log_issue :: "string \<Rightarrow> string \<Rightarrow> string \<Rightarrow> string \<Rightarrow> results \<Rightarrow> results" where
  "log_issue c sev msg recom r =
     r\<lparr>issues := issues r @
          [\<lparr>component = c, severity = sev, message = msg, recommendation = recom\<rparr>]\<rparr>"

definition log_recommendation :: "string \<Rightarrow> string \<Rightarrow> results \<Rightarrow> results" where
  "log_recommendation c msg r =
     r\<lparr>recommendations := recommendations r @
          [\<lparr>advice_component = c, advice_message = msg\<rparr>]\<rparr>"

definition set_score :: "string \<Rightarrow> int \<Rightarrow> results \<Rightarrow> results" where
  "set_score k v r = r\<lparr>scores := AList.update k v (scores r)\<rparr>"

section \<open>The checks\<close>

subsection \<open>File permissions\<close>

definition digit_char :: "nat \<Rightarrow> char" where
  "digit_char d = char_of (48 + d)"

definition digit_val :: "char \<Rightarrow> nat" where
  "digit_val c = of_char c - 48"

function oct_digits :: "nat \<Rightarrow> string" where
  "oct_digits n =
     (if n < 8 then [digit_char n] else oct_digits (n div 8) @ [digit_char (n mod 8)])"
  by pat_completeness auto
termination
  by (relation "measure id") auto

declare oct_digits.simps [simp del]

definition oct :: "nat \<Rightarrow> string" where
  "oct n = ''0o'' @ oct_digits n"

definition last3 :: "string \<Rightarrow> string" where
  "last3 s = drop (length s - 3) s"

definition sensitive_files :: "path list" where
  "sensitive_files =
     [ [''.env''], [''config.toml''], [''mcp-server'', ''.env''],
      [''mcp-server'', ''config.json''] ]"

fun permissions_loop :: "snapshot \<Rightarrow> path list \<Rightarrow> int \<Rightarrow> results \<Rightarrow> int \<times> results" where
  "permissions_loop s [] score r = (score, r)"
| "permissions_loop s (file_path # rest) score r =
     (if exists s file_path then
        (let permissions = last3 (oct (st_mode s file_path))
         in if digit_val (permissions ! 2) > 0
            then permissions_loop s rest (score - 2)
                   (log_issue ''FilePermissions'' ''warning''
                      (path_str file_path @ '' is readable by others (permissions: '' @
                       permissions @ '')'')
                      (''Run: chmod 600 '' @ str_path s file_path) r)
            else permissions_loop s rest score r)
      else permissions_loop s rest score r)"

definition check_file_permissions :: "snapshot \<Rightarrow> results \<Rightarrow> (exn + int) \<times> results" where
  "check_file_permissions s r =
     (let (score, r') = permissions_loop s sensitive_files 10 r
      in (Inr score, set_score ''file_permissions'' score r'))"

subsection \<open>Environment variables and hardcoded secrets\<close>

fun patterns_loop ::
  "path \<Rightarrow> string \<Rightarrow> (regex \<times> string) list \<Rightarrow> int \<Rightarrow> results \<Rightarrow> int \<times> results" where
  "patterns_loop file_path content [] score r = (score, r)"
| "patterns_loop file_path content ((pattern, description) # rest) score r =
     (if search pattern content \<and> \<not> contains ''process.env'' content
      then patterns_loop file_path content rest (score - 3)
             (log_issue ''HardcodedSecrets'' ''critical''
                (description @ '' found in '' @ path_str file_path)
                ''Move secrets to environment variables'' r)
      else patterns_loop file_path content rest score r)"

text \<open>
  \<open>_check_file_for_patterns\<close>: the two exceptions of its \<open>except\<close> clause leave score and
  results as they were; any other exception of the read leaves the function.
\<close>

definition check_file_for_patterns ::
  "snapshot \<Rightarrow> path \<Rightarrow> (regex \<times> string) list \<Rightarrow> int \<Rightarrow> results \<Rightarrow> (exn + int) \<times> results" where
  "check_file_for_patterns s file_path patterns score r =
     (case read_text s file_path of
        Inr content \<Rightarrow>
          (let (score', r') = patterns_loop file_path content patterns score r
           in (Inr score', r'))
      | Inl (UnicodeDecodeError m) \<Rightarrow> (Inr score, r)
      | Inl (PermissionError m) \<Rightarrow> (Inr score, r)
      | Inl (OtherException m) \<Rightarrow> (Inl (OtherException m), r))"

text \<open>
  The two inner loops of \<open>check_environment_variables\<close> call \<open>_check_file_for_patterns\<close> as a
  statement: the score it returns is not assigned, and every call receives the caller's
  \<open>score\<close>.
\<close>

fun scan_files :: "snapshot \<Rightarrow> path list \<Rightarrow> int \<Rightarrow> results \<Rightarrow> (exn + unit) \<times> results" where
  "scan_files s [] score r = (Inr (), r)"
| "scan_files s (file_path # rest) score r =
     (case check_file_for_patterns s file_path hardcoded_patterns score r of
        (Inl e, r') \<Rightarrow> (Inl e, r')
      | (Inr returned, r') \<Rightarrow> scan_files s rest score r')"

fun scan_dirs :: "snapshot \<Rightarrow> path list \<Rightarrow> int \<Rightarrow> results \<Rightarrow> (exn + unit) \<times> results" where
  "scan_dirs s [] score r = (Inr (), r)"
| "scan_dirs s (src_dir # rest) score r =
     (if exists s src_dir then
        (case scan_files s (rglob s src_dir ''*.rs'') score r of
           (Inl e, r') \<Rightarrow> (Inl e, r')
         | (Inr u, r1) \<Rightarrow>
             (case scan_files s (rglob s src_dir ''*.ts'') score r1 of
                (Inl e, r') \<Rightarrow> (Inl e, r')
              | (Inr u', r2) \<Rightarrow> scan_dirs s rest score r2))
      else scan_dirs s rest score r)"

definition source_dirs :: "path list" where
  "source_dirs = [ [''src''], mcp_root @ [''src''] ]"

definition env_examples :: "(path \<times> string) list" where
  "env_examples =
     [([''config.example.toml''], ''Bridge''), (mcp_root @ [''.env.example''], ''MCP Server'')]"

fun examples_loop :: "snapshot \<Rightarrow> (path \<times> string) list \<Rightarrow> int \<Rightarrow> results \<Rightarrow> int \<times> results" where
  "examples_loop s [] score r = (score, r)"
| "examples_loop s ((env_file, component_name) # rest) score r =
     (if exists s env_file then examples_loop s rest score r
      else examples_loop s rest (score - 1)
             (log_recommendation component_name
                (''Create '' @ last env_file @ '' with example configuration'') r))"

definition check_environment_variables :: "snapshot \<Rightarrow> results \<Rightarrow> (exn + int) \<times> results" where
  "check_environment_variables s r =
     (case scan_dirs s source_dirs 10 r of
        (Inl e, r') \<Rightarrow> (Inl e, r')
      | (Inr u, r1) \<Rightarrow>
          (let (score, r2) = examples_loop s env_examples 10 r1
           in (Inr score, set_score ''environment_variables'' score r2)))"

subsection \<open>Authentication, rate limiting and input validation\<close>

text \<open>
  The helper predicates of the three presence checks share one loop: the candidate files are
  visited in order, a file that exists is read, and the first file whose text satisfies the
  test answers \<open>True\<close>.  The read is not guarded, so its exception leaves the helper.
\<close>

fun any_file_has :: "snapshot \<Rightarrow> (string \<Rightarrow> bool) \<Rightarrow> path list \<Rightarrow> exn + bool" where
  "any_file_has s test [] = Inr False"
| "any_file_has s test (file_path # rest) =
     (if exists s file_path then
        (case read_text s file_path of
           Inl e \<Rightarrow> Inl e
         | Inr content \<Rightarrow> if test content then Inr True else any_file_has s test rest)
      else any_file_has s test rest)"

definition check_bridge_auth_config :: "snapshot \<Rightarrow> exn + bool" where
  "check_bridge_auth_config s =
     any_file_has s
       (\<lambda>content. contains ''TELEGRAM_ALLOWED_USERS'' content \<or> contains ''user_id'' content)
       [ [''src'', ''telegram'', ''handlers.rs''], [''src'', ''utils'', ''security.rs''] ]"

definition check_mcp_auth_config :: "snapshot \<Rightarrow> exn + bool" where
  "check_mcp_auth_config s =
     any_file_has s
       (\<lambda>content. contains ''MCP_API_KEYS'' content \<or> contains ''authenticate'' content)
       [mcp_root @ [''src'', ''security.ts''], mcp_root @ [''src'', ''index.ts''] ]"

definition check_authentication_config :: "snapshot \<Rightarrow> results \<Rightarrow> (exn + int) \<times> results" where
  "check_authentication_config s r =
     (case check_bridge_auth_config s of
        Inl e \<Rightarrow> (Inl e, r)
      | Inr bridge \<Rightarrow>
          (let score1 = (if bridge then 0 + 5 else 0);
               r1 = (if bridge then r
                     else log_issue ''BridgeAuth'' ''warning''
                            ''Bridge authentication may not be properly configured''
                            ''Ensure TELEGRAM_ALLOWED_USERS is set'' r)
           in case check_mcp_auth_config s of
                Inl e \<Rightarrow> (Inl e, r1)
              | Inr mcp \<Rightarrow>
                  (let score2 = (if mcp then score1 + 5 else score1);
                       r2 = (if mcp then r1
                             else log_issue ''MCPAuth'' ''warning''
                                    ''MCP Server authentication may not be properly configured''
                                    ''Ensure MCP_API_KEYS is configured'' r1)
                   in (Inr score2, set_score ''authentication'' score2 r2))))"

definition check_bridge_rate_limiting :: "snapshot \<Rightarrow> exn + bool" where
  "check_bridge_rate_limiting s =
     any_file_has s
       (\<lambda>content. contains ''rate_limit'' (lower content) \<or> contains ''throttle'' (lower content))
       [ [''src'', ''utils'', ''security.rs''], [''src'', ''telegram'', ''handlers.rs''] ]"

definition check_mcp_rate_limiting :: "snapshot \<Rightarrow> exn + bool" where
  "check_mcp_rate_limiting s =
     any_file_has s
       (\<lambda>content. contains ''rate'' (lower content) \<and> contains ''limit'' (lower content))
       [mcp_root @ [''src'', ''security.ts''], mcp_root @ [''package.json''] ]"

definition check_rate_limiting :: "snapshot \<Rightarrow> results \<Rightarrow> (exn + int) \<times> results" where
  "check_rate_limiting s r =
     (case check_bridge_rate_limiting s of
        Inl e \<Rightarrow> (Inl e, r)
      | Inr bridge \<Rightarrow>
          (let score1 = (if bridge then 0 + 5 else 0);
               r1 = (if bridge then r
                     else log_issue ''BridgeRateLimit'' ''medium''
                            ''Bridge rate limiting not found''
                            ''Implement rate limiting for user requests'' r)
           in case check_mcp_rate_limiting s of
                Inl e \<Rightarrow> (Inl e, r1)
              | Inr mcp \<Rightarrow>
                  (let score2 = (if mcp then score1 + 5 else score1);
                       r2 = (if mcp then r1
                             else log_issue ''MCPRateLimit'' ''medium''
                                    ''MCP Server rate limiting not found''
                                    ''Implement rate limiting for API requests'' r1)
                   in (Inr score2, set_score ''rate_limiting'' score2 r2))))"

definition validation_indicators :: "string list" where
  "validation_indicators = [''sanitize'', ''validate'', ''SecurityManager'']"

definition check_bridge_input_validation :: "snapshot \<Rightarrow> exn + bool" where
  "check_bridge_input_validation s =
     any_file_has s
       (\<lambda>content. list_ex (\<lambda>indicator. contains indicator content) validation_indicators)
       (rglob s [''src''] ''*.rs'')"

definition check_mcp_input_validation :: "snapshot \<Rightarrow> exn + bool" where
  "check_mcp_input_validation s =
     (case any_file_has s
             (\<lambda>content. contains ''joi'' (lower content) \<or> contains ''validator'' (lower content))
             [mcp_root @ [''package.json''] ] of
        Inl e \<Rightarrow> Inl e
      | Inr True \<Rightarrow> Inr True
      | Inr False \<Rightarrow>
          any_file_has s
            (\<lambda>content. contains ''validate'' (lower content) \<or> contains ''sanitize'' (lower content))
            (rglob s (mcp_root @ [''src'']) ''*.ts''))"

definition check_input_validation :: "snapshot \<Rightarrow> results \<Rightarrow> (exn + int) \<times> results" where
  "check_input_validation s r =
     (case check_bridge_input_validation s of
        Inl e \<Rightarrow> (Inl e, r)
      | Inr bridge \<Rightarrow>
          (let score1 = (if bridge then 0 + 5 else 0);
               r1 = (if bridge then r
                     else log_issue ''BridgeValidation'' ''high''
                            ''Bridge input validation not comprehensive''
                            ''Implement comprehensive input sanitization'' r)
           in case check_mcp_input_validation s of
                Inl e \<Rightarrow> (Inl e, r1)
              | Inr mcp \<Rightarrow>
                  (let score2 = (if mcp then score1 + 5 else score1);
                       r2 = (if mcp then r1
                             else log_issue ''MCPValidation'' ''high''
                                    ''MCP Server input validation not found''
                                    ''Implement input validation with Joi or similar'' r1)
                   in (Inr score2, set_score ''input_validation'' score2 r2))))"

subsection \<open>Logging hygiene\<close>

fun log_patterns_loop ::
  "path \<Rightarrow> string \<Rightarrow> (regex \<times> string) list \<Rightarrow> int \<Rightarrow> results \<Rightarrow> int \<times> results" where
  "log_patterns_loop file_path content [] score r = (score, r)"
| "log_patterns_loop file_path content ((pattern, description) # rest) score r =
     (if search pattern content
      then log_patterns_loop file_path content rest (score - 2)
             (log_issue ''LoggingSecurity'' ''medium''
                (description @ '' in '' @ path_str file_path)
                ''Remove sensitive data from logs'' r)
      else log_patterns_loop file_path content rest score r)"

fun logging_loop :: "snapshot \<Rightarrow> path list \<Rightarrow> int \<Rightarrow> results \<Rightarrow> (exn + int) \<times> results" where
  "logging_loop s [] score r = (Inr score, r)"
| "logging_loop s (file_path # rest) score r =
     (if exists s file_path then
        (case read_text s file_path of
           Inr content \<Rightarrow>
             logging_loop s rest
               (fst (log_patterns_loop file_path content sensitive_log_patterns score r))
               (snd (log_patterns_loop file_path content sensitive_log_patterns score r))
         | Inl (UnicodeDecodeError m) \<Rightarrow> logging_loop s rest score r
         | Inl (PermissionError m) \<Rightarrow> logging_loop s rest score r
         | Inl (OtherException m) \<Rightarrow> (Inl (OtherException m), r))
      else logging_loop s rest score r)"

definition check_logging_security :: "snapshot \<Rightarrow> results \<Rightarrow> (exn + int) \<times> results" where
  "check_logging_security s r =
     (let all_source_files = rglob s [''src''] ''*.rs'' @ rglob s (mcp_root @ [''src'']) ''*.ts''
      in case logging_loop s all_source_files 10 r of
           (Inl e, r') \<Rightarrow> (Inl e, r')
         | (Inr score, r') \<Rightarrow> (Inr score, set_score ''logging_security'' score r'))"

subsection \<open>Dependency pinning\<close>

text \<open>
  \<open>package.json\<close> is read and parsed twice, by \<open>json.loads\<close>.  On the parsed value,
  \<open>content.get(key, {})\<close> and \<open>scripts.keys()\<close> exist only for a dictionary, and \<open>x in deps\<close>
  is a key test on a dictionary, a membership test on a list, a substring test on a string
  and a \<open>TypeError\<close> on the other values.
\<close>

fun type_name :: "json \<Rightarrow> string" where
  "type_name JNull = ''NoneType''"
| "type_name (JBool b) = ''bool''"
| "type_name (JInt i) = ''int''"
| "type_name (JFloat x) = ''float''"
| "type_name (JStr t) = ''str''"
| "type_name (JArr xs) = ''list''"
| "type_name (JObj kvs) = ''dict''"

definition no_attribute :: "json \<Rightarrow> string \<Rightarrow> exn" where
  "no_attribute v attr =
     OtherException ([CHR 0x27] @ type_name v @ [CHR 0x27] @ '' object has no attribute '' @
                     [CHR 0x27] @ attr @ [CHR 0x27])"

definition json_get :: "json \<Rightarrow> string \<Rightarrow> json \<Rightarrow> exn + json" where
  "json_get v k dflt =
     (case v of
        JObj kvs \<Rightarrow> Inr (case map_of kvs k of Some x \<Rightarrow> x | None \<Rightarrow> dflt)
      | _ \<Rightarrow> Inl (no_attribute v ''get''))"

definition json_keys :: "json \<Rightarrow> exn + string list" where
  "json_keys v = (case v of JObj kvs \<Rightarrow> Inr (map fst kvs) | _ \<Rightarrow> Inl (no_attribute v ''keys''))"

definition json_in :: "string \<Rightarrow> json \<Rightarrow> exn + bool" where
  "json_in k v =
     (case v of
        JObj kvs \<Rightarrow> Inr (k \<in> set (map fst kvs))
      | JArr xs \<Rightarrow> Inr (JStr k \<in> set xs)
      | JStr t \<Rightarrow> Inr (contains k t)
      | _ \<Rightarrow> Inl (OtherException (''argument of type '' @ [CHR 0x27] @ type_name v @
                                   [CHR 0x27] @ '' is not iterable'')))"

definition load_package_json :: "snapshot \<Rightarrow> exn + json" where
  "load_package_json s =
     (case read_text s (mcp_root @ [''package.json'']) of
        Inl e \<Rightarrow> Inl e
      | Inr text \<Rightarrow> json_loads s text)"

definition has_audit_script :: "snapshot \<Rightarrow> exn + bool" where
  "has_audit_script s =
     (case load_package_json s of
        Inl e \<Rightarrow> Inl e
      | Inr content \<Rightarrow>
          (case json_get content ''scripts'' (JObj []) of
             Inl e \<Rightarrow> Inl e
           | Inr scripts \<Rightarrow>
               (case json_keys scripts of
                  Inl e \<Rightarrow> Inl e
                | Inr ks \<Rightarrow> Inr (list_ex (\<lambda>script. contains ''audit'' script) ks))))"

definition has_security_dependency :: "snapshot \<Rightarrow> exn + bool" where
  "has_security_dependency s =
     (case load_package_json s of
        Inl e \<Rightarrow> Inl e
      | Inr content \<Rightarrow>
          (case json_get content ''dependencies'' (JObj []) of
             Inl e \<Rightarrow> Inl e
           | Inr deps \<Rightarrow>
               (case json_in ''helmet'' deps of
                  Inl e \<Rightarrow> Inl e
                | Inr True \<Rightarrow> Inr True
                | Inr False \<Rightarrow> json_in ''express-rate-limit'' deps)))"

definition check_dependency_security :: "snapshot \<Rightarrow> results \<Rightarrow> (exn + int) \<times> results" where
  "check_dependency_security s r =
     (let cargo = exists s [''Cargo.lock''];
          score1 = (if cargo then 0 + 2 else 0);
          r1 = (if cargo then r
                else log_issue ''BridgeDeps'' ''medium'' ''Cargo.lock not found''
                       ''Run cargo build to generate Cargo.lock'' r);
          npm = exists s (mcp_root @ [''package-lock.json'']);
          score2 = (if npm then score1 + 2 else score1);
          r2 = (if npm then r1
                else log_issue ''MCPDeps'' ''medium'' ''package-lock.json not found''
                       ''Run npm install to generate package-lock.json'' r1)
      in if exists s (mcp_root @ [''package.json'']) then
           (case has_audit_script s of
              Inl e \<Rightarrow> (Inl e, r2)
            | Inr audit \<Rightarrow>
                (let score3 = (if audit then score2 + 3 else score2);
                     r3 = (if audit then r2
                           else log_recommendation ''MCPDeps''
                                  ''Add npm audit scripts to package.json'' r2)
                 in case has_security_dependency s of
                      Inl e \<Rightarrow> (Inl e, r3)
                    | Inr secure \<Rightarrow>
                        (let score4 = (if secure then score3 + 3 else score3);
                             r4 = (if secure then r3
                                   else log_recommendation ''MCPDeps''
                                          ''Consider adding security dependencies like helmet'' r3)
                         in (Inr score4, set_score ''dependency_security'' score4 r4))))
         else (Inr score2, set_score ''dependency_security'' score2 r2))"

subsection \<open>CI hardening\<close>

definition workflows_dir :: path where
  "workflows_dir = [''.github'', ''workflows'']"

definition security_workflows :: "string list" where
  "security_workflows = [''security-enhanced.yml'', ''scorecard.yml'', ''slsa-provenance.yml'']"

fun workflows_loop :: "snapshot \<Rightarrow> string list \<Rightarrow> int \<Rightarrow> results \<Rightarrow> int \<times> results" where
  "workflows_loop s [] score r = (score, r)"
| "workflows_loop s (workflow # rest) score r =
     (if exists s (workflows_dir @ [workflow]) then workflows_loop s rest (score + 3) r
      else workflows_loop s rest score
             (log_recommendation ''CI/CD''
                (''Consider adding '' @ workflow @ '' security workflow'') r))"

fun workflow_permissions_loop :: "snapshot \<Rightarrow> path list \<Rightarrow> int \<Rightarrow> exn + int" where
  "workflow_permissions_loop s [] score = Inr score"
| "workflow_permissions_loop s (workflow_file # rest) score =
     (case read_text s workflow_file of
        Inl e \<Rightarrow> Inl e
      | Inr content \<Rightarrow>
          workflow_permissions_loop s rest
            (if contains ''permissions:'' content then score + 1 else score))"

definition check_ci_security :: "snapshot \<Rightarrow> results \<Rightarrow> (exn + int) \<times> results" where
  "check_ci_security s r =
     (if exists s workflows_dir then
        (let (score1, r1) = workflows_loop s security_workflows 0 r
         in case workflow_permissions_loop s (glob s workflows_dir ''*.yml'') score1 of
              Inl e \<Rightarrow> (Inl e, r1)
            | Inr score2 \<Rightarrow> (Inr (min score2 10), set_score ''ci_security'' (min score2 10) r1))
      else
        (let r1 = log_issue ''CI/CD'' ''medium'' ''No CI/CD workflows found''
                    ''Set up GitHub Actions workflows for security'' r
         in (Inr (min 0 10), set_score ''ci_security'' (min 0 10) r1)))"

section \<open>Aggregation and the runner\<close>

text \<open>
  \<open>generate_report\<close> reads the clock for the timestamp; the reading is the parameter \<open>now\<close>.
  The band is computed by the same chain of comparisons in \<open>generate_report\<close> and in the
  summary that \<open>run_all_checks\<close> prints.
\<close>

definition status_band :: "rat \<Rightarrow> string" where
  "status_band p =
     (if p \<ge> 90 then ''excellent''
      else if p \<ge> 80 then ''good''
      else if p \<ge> 70 then ''fair''
      else if p \<ge> 60 then ''poor''
      else ''critical'')"

definition generate_report :: "string \<Rightarrow> results \<Rightarrow> results" where
  "generate_report now r =
     (let r1 = r\<lparr>timestamp := now\<rparr>
      in if scores r1 \<noteq> [] then
           (let total_score = sum_list (map snd (scores r1));
                max_score' = int (length (scores r1)) * 10;
                percentage' = (of_int total_score / of_int max_score') * 100
            in r1\<lparr>overall_status := status_band percentage',
                  overall_score := Some total_score,
                  max_score := Some max_score',
                  percentage := Some percentage'\<rparr>)
         else r1)"

type_synonym check_func = "results \<Rightarrow> (exn + int) \<times> results"

definition checks :: "snapshot \<Rightarrow> (string \<times> check_func) list" where
  "checks s =
     [(''File Permissions'', check_file_permissions s),
      (''Environment Variables'', check_environment_variables s),
      (''Authentication'', check_authentication_config s),
      (''Rate Limiting'', check_rate_limiting s),
      (''Input Validation'', check_input_validation s),
      (''Logging Security'', check_logging_security s),
      (''Dependency Security'', check_dependency_security s),
      (''CI/CD Security'', check_ci_security s)]"

text \<open>
  The loop of \<open>run_all_checks\<close>: a check that returns adds its score to the running total; a
  check that raises is reported by \<open>log_issue\<close> with the default empty recommendation, and the
  loop goes on with the next check.
\<close>

fun run_checks :: "(string \<times> check_func) list \<Rightarrow> int \<Rightarrow> results \<Rightarrow> int \<times> results" where
  "run_checks [] total_score r = (total_score, r)"
| "run_checks ((check_name, check_func) # rest) total_score r =
     (case check_func r of
        (Inr score, r') \<Rightarrow> run_checks rest (total_score + score) r'
      | (Inl e, r') \<Rightarrow>
          run_checks rest total_score
            (log_issue ''SystemError'' ''critical''
               (''Check failed: '' @ check_name @ '' - '' @ exn_str e) [] r'))"

text \<open>
  \<open>printed_summary\<close> is the total, the maximum and the percentage that \<open>run_all_checks\<close>
  computes for its printed summary; the report it returns is \<open>generate_report\<close> of the
  results the loop has left.
\<close>

definition printed_summary :: "snapshot \<Rightarrow> results \<Rightarrow> int \<times> int \<times> rat" where
  "printed_summary s r =
     (let total_score = fst (run_checks (checks s) 0 r);
          max_score' = int (length (checks s)) * 10
      in (total_score, max_score', (of_int total_score / of_int max_score') * 100))"

definition run_all_checks :: "snapshot \<Rightarrow> string \<Rightarrow> results \<Rightarrow> results" where
  "run_all_checks s now r = generate_report now (snd (run_checks (checks s) 0 r))"

text \<open>A run, as \<open>main\<close> does it: a new checker, then \<open>run_all_checks\<close>.\<close>

definition run :: "snapshot \<Rightarrow> string \<Rightarrow> results" where
  "run s now = run_all_checks s now init_results"


section \<open>Scorecard comparison: check analysis and priority actions\<close>

text \<open>
  A scorecard check is a dictionary with the key \<open>name\<close> and the optional keys \<open>score\<close>,
  \<open>reason\<close> and \<open>documentation\<close>; scores are numbers, modelled as rationals.  The three
  dictionaries of \<open>analyze_individual_checks\<close> keep insertion order and are association
  lists: assigning to a key that is present replaces its value in place.
\<close>

record check_entry =
  name :: string
  score :: "rat option"
  reason :: "string option"
  documentation :: "(string \<times> string) list option"

datatype status = Improved | Declined | Unchanged | Missing

record analysis_entry =
  current_score :: rat
  baseline_score :: rat
  diff :: rat
  status :: status
  current_reason :: string
  baseline_reason :: string
  entry_documentation :: "(string \<times> string) list"

definition calculate_score_diff :: "rat \<Rightarrow> rat \<Rightarrow> rat \<times> status" where
  "calculate_score_diff current baseline =
     (let d = current - baseline
      in (d, if d > 0 then Improved else if d < 0 then Declined else Unchanged))"

definition get_or :: "'a option \<Rightarrow> 'a \<Rightarrow> 'a" where
  "get_or v dflt = (case v of Some x \<Rightarrow> x | None \<Rightarrow> dflt)"

definition by_name :: "check_entry list \<Rightarrow> (string \<times> check_entry) list" where
  "by_name cs = foldl (\<lambda>d c. AList.update (name c) c d) [] cs"

text \<open>
  The first loop: \<open>baseline_check\<close> is \<open>baseline_dict.get(check_name, {})\<close>, so every key of a
  check that the baseline does not have takes its default.
\<close>

definition current_analysis ::
  "(string \<times> check_entry) list \<Rightarrow> string \<Rightarrow> check_entry \<Rightarrow> analysis_entry" where
  "current_analysis baseline_dict check_name current_check =
     (let baseline_check = map_of baseline_dict check_name;
          current_score' = get_or (score current_check) 0;
          baseline_score' = get_or (Option.bind baseline_check score) 0;
          (d, st) = calculate_score_diff current_score' baseline_score'
      in \<lparr>current_score = current_score', baseline_score = baseline_score', diff = d,
          status = st, current_reason = get_or (reason current_check) [],
          baseline_reason = get_or (Option.bind baseline_check reason) [],
          entry_documentation = get_or (documentation current_check) []\<rparr>)"

definition missing_analysis :: "check_entry \<Rightarrow> analysis_entry" where
  "missing_analysis baseline_check =
     \<lparr>current_score = 0, baseline_score = get_or (score baseline_check) 0,
      diff = - get_or (score baseline_check) 0, status = Missing,
      current_reason = ''Check not found in current results'',
      baseline_reason = get_or (reason baseline_check) [], entry_documentation = []\<rparr>"

definition analyze_individual_checks ::
  "check_entry list \<Rightarrow> check_entry list \<Rightarrow> (string \<times> analysis_entry) list" where
  "analyze_individual_checks current_checks baseline_checks =
     (let baseline_dict = by_name baseline_checks;
          current_dict = by_name current_checks;
          analysis =
            foldl (\<lambda>an (check_name, current_check).
                     AList.update check_name
                       (current_analysis baseline_dict check_name current_check) an)
              [] current_dict
      in foldl (\<lambda>an (check_name, baseline_check).
                  if map_of current_dict check_name = None
                  then AList.update check_name (missing_analysis baseline_check) an
                  else an)
           analysis baseline_dict)"

datatype priority = High | Medium | Low

datatype action_kind = Investigate_decline | Restore_check | Improve_security

record action_entry =
  check :: string
  priority :: priority
  action :: action_kind
  action_current_score :: rat
  action_baseline_score :: rat
  action_diff :: rat
  action_reason :: string

definition security_critical_checks :: "string list" where
  "security_critical_checks =
     [''Vulnerabilities'', ''Code-Review'', ''Branch-Protection'', ''Token-Permissions'',
      ''Dangerous-Workflow'', ''Security-Policy'']"

definition make_action ::
  "string \<Rightarrow> priority \<Rightarrow> action_kind \<Rightarrow> analysis_entry \<Rightarrow> action_entry" where
  "make_action check_name p a data =
     \<lparr>check = check_name, priority = p, action = a,
      action_current_score = current_score data, action_baseline_score = baseline_score data,
      action_diff = diff data, action_reason = current_reason data\<rparr>"

text \<open>The body of the loop over \<open>analysis.items()\<close>: the action appended for one check, if any.\<close>

definition action_for :: "string \<Rightarrow> analysis_entry \<Rightarrow> action_entry option" where
  "action_for check_name data =
     (if status data = Declined then
        Some (make_action check_name
                (if check_name \<in> set security_critical_checks then High else Medium)
                Investigate_decline data)
      else if status data = Missing then
        Some (make_action check_name High Restore_check data)
      else if current_score data < 7 \<and> check_name \<in> set security_critical_checks then
        Some (make_action check_name Medium Improve_security data)
      else None)"

fun collect_actions ::
  "(string \<times> analysis_entry) list \<Rightarrow> action_entry list \<Rightarrow> action_entry list" where
  "collect_actions [] actions = actions"
| "collect_actions ((check_name, data) # rest) actions =
     (case action_for check_name data of
        Some a \<Rightarrow> collect_actions rest (actions @ [a])
      | None \<Rightarrow> collect_actions rest actions)"

fun priority_order :: "priority \<Rightarrow> nat" where
  "priority_order High = 0"
| "priority_order Medium = 1"
| "priority_order Low = 2"

definition sort_key_of :: "action_entry \<Rightarrow> nat \<times> rat" where
  "sort_key_of x = (priority_order (priority x), action_diff x)"

text \<open>
  \<open>actions.sort(key=...)\<close> is a stable sort on the pairs (priority rank, score difference),
  compared lexicographically; \<open>sort_key\<close> is the stable insertion sort of the library.
\<close>

definition identify_priority_actions ::
  "(string \<times> analysis_entry) list \<Rightarrow> action_entry list" where
  "identify_priority_actions analysis = sort_key sort_key_of (collect_actions analysis [])"

section \<open>Example projects, results and scorecards\<close>

text \<open>
  \<open>empty_project\<close> has no files at all.  \<open>hardcoded_token_project\<close> has one Rust source file
  holding a quoted token of 26 letters and no \<open>process.env\<close>, and both example
  configuration files.  \<open>unreadable_handler_project\<close> has the bridge's \<open>handlers.rs\<close>, which
  may not be read.  \<open>leaky_logging_project\<close> has two Rust source files that each log a
  password, a token and a key.
\<close>

definition empty_project :: snapshot where
  "empty_project =
     \<lparr>exists = (\<lambda>p. False), st_mode = (\<lambda>p. 0),
      read_text = (\<lambda>p. Inl (OtherException ''[Errno 2] No such file or directory'')),
      rglob = (\<lambda>d pat. []), glob = (\<lambda>d pat. []),
      str_path = (\<lambda>p. ''/project/'' @ path_str p),
      json_loads = (\<lambda>t. Inl (OtherException ''Expecting value: line 1 column 1 (char 0)''))\<rparr>"

definition secret_line :: string where
  "secret_line = ''token = '' @ [CHR 0x22] @ ''abcdefghijklmnopqrstuvwxyz'' @ [CHR 0x22]"

definition hardcoded_token_project :: snapshot where
  "hardcoded_token_project =
     empty_project
       \<lparr>exists := (\<lambda>p. p \<in> set [ [''src''], [''src'', ''config.rs''], [''config.example.toml''],
                                 [''mcp-server'', ''.env.example''] ]),
        read_text := (\<lambda>p. if p = [''src'', ''config.rs''] then Inr secret_line
                           else read_text empty_project p),
        rglob := (\<lambda>d pat. if d = [''src''] \<and> pat = ''*.rs'' then [ [''src'', ''config.rs''] ]
                           else [])\<rparr>"

definition handlers_rs :: path where
  "handlers_rs = [''src'', ''telegram'', ''handlers.rs'']"

definition unreadable_handler_project :: snapshot where
  "unreadable_handler_project =
     empty_project
       \<lparr>exists := (\<lambda>p. p \<in> set [ [''src''], [''src'', ''telegram''], handlers_rs]),
        read_text := (\<lambda>p. if p = handlers_rs
                           then Inl (PermissionError ''[Errno 13] Permission denied'')
                           else read_text empty_project p),
        rglob := (\<lambda>d pat. if d = [''src''] \<and> pat = ''*.rs'' then [handlers_rs] else [])\<rparr>"

definition leaky_line :: string where
  "leaky_line = ''log::info!(password, token, key)''"

definition leaky_logging_project :: snapshot where
  "leaky_logging_project =
     empty_project
       \<lparr>exists := (\<lambda>p. p \<in> set [ [''src''], [''src'', ''a.rs''], [''src'', ''b.rs''] ]),
        read_text := (\<lambda>p. if p \<in> set [ [''src'', ''a.rs''], [''src'', ''b.rs''] ]
                           then Inr leaky_line else read_text empty_project p),
        rglob := (\<lambda>d pat. if d = [''src''] \<and> pat = ''*.rs''
                           then [ [''src'', ''a.rs''], [''src'', ''b.rs''] ] else [])\<rparr>"



text \<open>
  A current scorecard of four checks and a baseline of five: \<open>Fuzzing\<close> is only in the
  baseline, \<open>Vulnerabilities\<close>, \<open>License\<close> and \<open>Maintained\<close> have declined (the last two by
  the same amount), and \<open>Code-Review\<close> is unchanged at 3.
\<close>

definition entry :: "string \<Rightarrow> rat \<Rightarrow> check_entry" where
  "entry n v = \<lparr>name = n, score = Some v, reason = None, documentation = None\<rparr>"

definition current_card :: "check_entry list" where
  "current_card =
     [entry ''Code-Review'' 3, entry ''License'' 8, entry ''Maintained'' 6,
      entry ''Vulnerabilities'' 5]"

definition baseline_card :: "check_entry list" where
  "baseline_card =
     [entry ''Code-Review'' 3, entry ''Fuzzing'' 8, entry ''License'' 10,
      entry ''Maintained'' 8, entry ''Vulnerabilities'' 9]"

section \<open>Score bounds of the checks\<close>

text \<open>
  Each check that returns has stored the score it returns under its own key.  The loops that
  deduct points are bounded by the length of the list they run over; the loop over the
  scanned files in \<open>check_logging_security\<close> is bounded above only.
\<close>

lemma stored_score:
  "map_of (scores (set_score k v r)) k = Some v"
  by (simp add: set_score_def update_conv')

lemma permissions_loop_bounds:
  "sc0 - 2 * int (length fs) \<le> fst (permissions_loop s fs sc0 r) \<and>
   fst (permissions_loop s fs sc0 r) \<le> sc0"
proof (induction fs arbitrary: sc0 r)
  case Nil
  show ?case by simp
next
  case (Cons f fs)
  show ?case
    using Cons.IH [of "sc0 - 2"] Cons.IH [of sc0]
    by (simp add: Let_def) (smt (verit))
qed

lemma file_permissions_score:
  assumes "check_file_permissions s r = (Inr sc, r')"
  shows "2 \<le> sc \<and> sc \<le> 10 \<and> map_of (scores r') ''file_permissions'' = Some sc"
proof -
  obtain a b where ab: "permissions_loop s sensitive_files 10 r = (a, b)"
    by (cases "permissions_loop s sensitive_files 10 r")
  from assms ab have sc: "sc = a" and r': "r' = set_score ''file_permissions'' a b"
    by (auto simp: check_file_permissions_def)
  have "10 - 2 * int (length sensitive_files) \<le> a \<and> a \<le> 10"
    using permissions_loop_bounds [of 10 sensitive_files s r] ab by simp
  then show ?thesis
    by (simp add: sc r' stored_score sensitive_files_def)
qed

lemma examples_loop_bounds:
  "sc0 - int (length xs) \<le> fst (examples_loop s xs sc0 r) \<and>
   fst (examples_loop s xs sc0 r) \<le> sc0"
proof (induction xs arbitrary: sc0 r)
  case Nil
  show ?case by simp
next
  case (Cons x xs)
  obtain f c where x: "x = (f, c)" by (cases x)
  show ?case
    using Cons.IH [of "sc0 - 1"] Cons.IH [of sc0]
    by (simp add: x) (smt (verit))
qed

lemma environment_variables_score:
  assumes "check_environment_variables s r = (Inr sc, r')"
  shows "8 \<le> sc \<and> sc \<le> 10 \<and> map_of (scores r') ''environment_variables'' = Some sc"
proof -
  obtain u r1 where scan: "scan_dirs s source_dirs 10 r = (Inr u, r1)"
    using assms by (auto simp: check_environment_variables_def split: prod.splits sum.splits)
  obtain a b where ab: "examples_loop s env_examples 10 r1 = (a, b)"
    by (cases "examples_loop s env_examples 10 r1")
  from assms scan ab have sc: "sc = a" and r': "r' = set_score ''environment_variables'' a b"
    by (auto simp: check_environment_variables_def)
  have "10 - int (length env_examples) \<le> a \<and> a \<le> 10"
    using examples_loop_bounds [of 10 env_examples s r1] ab by simp
  then show ?thesis
    by (simp add: sc r' stored_score env_examples_def)
qed

lemma authentication_score:
  assumes "check_authentication_config s r = (Inr sc, r')"
  shows "sc \<in> {0, 5, 10} \<and> map_of (scores r') ''authentication'' = Some sc"
  using assms
  by (auto simp: check_authentication_config_def Let_def stored_score split: sum.splits if_splits)

lemma rate_limiting_score:
  assumes "check_rate_limiting s r = (Inr sc, r')"
  shows "sc \<in> {0, 5, 10} \<and> map_of (scores r') ''rate_limiting'' = Some sc"
  using assms
  by (auto simp: check_rate_limiting_def Let_def stored_score split: sum.splits if_splits)

lemma input_validation_score:
  assumes "check_input_validation s r = (Inr sc, r')"
  shows "sc \<in> {0, 5, 10} \<and> map_of (scores r') ''input_validation'' = Some sc"
  using assms
  by (auto simp: check_input_validation_def Let_def stored_score split: sum.splits if_splits)

lemma log_patterns_loop_le:
  "fst (log_patterns_loop f content ps sc0 r) \<le> sc0"
proof (induction ps arbitrary: sc0 r)
  case Nil
  show ?case by simp
next
  case (Cons p ps)
  obtain pat d where p: "p = (pat, d)" by (cases p)
  show ?case
    using Cons.IH [of "sc0 - 2"] Cons.IH [of sc0]
    by (simp add: p) (smt (verit))
qed

lemma logging_loop_le:
  "logging_loop s fs sc0 r = (Inr sc, r') \<Longrightarrow> sc \<le> sc0"
proof (induction fs arbitrary: sc0 r)
  case Nil
  then show ?case by simp
next
  case (Cons f fs)
  show ?case
  proof (cases "exists s f")
    case False
    with Cons show ?thesis by simp
  next
    case True
    show ?thesis
    proof (cases "read_text s f")
      case (Inr content)
      let ?p = "log_patterns_loop f content sensitive_log_patterns sc0 r"
      from Cons.prems True Inr have "logging_loop s fs (fst ?p) (snd ?p) = (Inr sc, r')"
        by simp
      then have "sc \<le> fst ?p" by (rule Cons.IH)
      with log_patterns_loop_le [of f content sensitive_log_patterns sc0 r]
      show ?thesis by simp
    next
      case (Inl e)
      with Cons True show ?thesis by (cases e) auto
    qed
  qed
qed

lemma logging_security_score:
  assumes "check_logging_security s r = (Inr sc, r')"
  shows "sc \<le> 10 \<and> map_of (scores r') ''logging_security'' = Some sc"
  using assms
  by (auto simp: check_logging_security_def Let_def stored_score
           split: sum.splits prod.splits dest: logging_loop_le)

lemma dependency_security_score:
  assumes "check_dependency_security s r = (Inr sc, r')"
  shows "0 \<le> sc \<and> sc \<le> 10 \<and> map_of (scores r') ''dependency_security'' = Some sc"
  using assms
  by (auto simp: check_dependency_security_def Let_def stored_score split: sum.splits if_splits)

lemma workflows_loop_ge:
  "sc0 \<le> fst (workflows_loop s ws sc0 r)"
proof (induction ws arbitrary: sc0 r)
  case Nil
  show ?case by simp
next
  case (Cons w ws)
  show ?case
    using Cons.IH [of "sc0 + 3"] Cons.IH [of sc0]
    by simp (smt (verit))
qed

lemma workflow_permissions_loop_ge:
  "workflow_permissions_loop s fs sc0 = Inr sc \<Longrightarrow> sc0 \<le> sc"
proof (induction fs arbitrary: sc0)
  case Nil
  then show ?case by simp
next
  case (Cons f fs)
  then show ?case
    by (fastforce split: sum.splits if_splits)
qed

lemma ci_security_score:
  assumes "check_ci_security s r = (Inr sc, r')"
  shows "0 \<le> sc \<and> sc \<le> 10 \<and> map_of (scores r') ''ci_security'' = Some sc"
proof (cases "exists s workflows_dir")
  case False
  with assms show ?thesis
    by (auto simp: check_ci_security_def Let_def stored_score)
next
  case True
  obtain a b where ab: "workflows_loop s security_workflows 0 r = (a, b)"
    by (cases "workflows_loop s security_workflows 0 r")
  from assms True ab obtain sc2 where
    loop: "workflow_permissions_loop s (glob s workflows_dir ''*.yml'') a = Inr sc2"
    and sc: "sc = min sc2 10" and r': "r' = set_score ''ci_security'' (min sc2 10) b"
    by (auto simp: check_ci_security_def split: sum.splits)
  have "0 \<le> a" using workflows_loop_ge [of 0 s security_workflows r] ab by simp
  moreover have "a \<le> sc2" using loop by (rule workflow_permissions_loop_ge)
  ultimately show ?thesis by (simp add: sc r' stored_score)
qed

lemma examples_loop_score:
  "fst (examples_loop s xs sc0 r) =
   sc0 - int (length (filter (\<lambda>x. \<not> exists s (fst x)) xs))"
proof (induction xs arbitrary: sc0 r)
  case Nil
  show ?case by simp
next
  case (Cons x xs)
  obtain f c where x: "x = (f, c)" by (cases x)
  show ?case
    using Cons.IH [of "sc0 - 1"] Cons.IH [of sc0]
    by (simp add: x)
qed

lemma environment_score_ignores_matches:
  assumes "check_environment_variables s r = (Inr sc, r')"
  shows "sc = 10 - int (length (filter (\<lambda>x. \<not> exists s (fst x)) env_examples))"
proof -
  obtain u r1 where scan: "scan_dirs s source_dirs 10 r = (Inr u, r1)"
    using assms by (auto simp: check_environment_variables_def split: prod.splits sum.splits)
  obtain a b where ab: "examples_loop s env_examples 10 r1 = (a, b)"
    by (cases "examples_loop s env_examples 10 r1")
  from assms scan ab have "sc = a"
    by (auto simp: check_environment_variables_def)
  with examples_loop_score [of s env_examples 10 r1] ab show ?thesis by simp
qed

section \<open>The claims about the checks\<close>

text \<open>
  C1.  Claim: a scanned source file that matches a hardcoded-secret rule and has no
  \<open>process.env\<close> makes the secret-scanning check emit one critical issue per matching rule
  and deduct 3 points from its baseline of 10; a file with the marker emits nothing and
  leaves the score at 10.

  On \<open>hardcoded_token_project\<close> (Scenario A of the specification) the critical issue is
  emitted and the helper \<open>_check_file_for_patterns\<close> returns 7, but the check drops the
  returned value: the score it returns and stores is 10.
\<close>

theorem hardcoded_token_score_stays_10:
  "check_environment_variables hardcoded_token_project init_results =
     (Inr 10,
      init_results
        \<lparr>scores := [(''environment_variables'', 10)],
         issues := [\<lparr>component = ''HardcodedSecrets'', severity = ''critical'',
                     message = ''Hardcoded token found in src/config.rs'',
                     recommendation = ''Move secrets to environment variables''\<rparr>]\<rparr>) \<and>
   fst (check_file_for_patterns hardcoded_token_project [''src'', ''config.rs'']
          hardcoded_patterns 10 init_results) = Inr 7"
  by code_simp

text \<open>
  C2.  Claim: for every check and every snapshot the stored score lies in the closed interval
  from 0 to 10; deduction checks never go below 0 and presence checks never go above 10.

  The claim fails for the logging check, which has no lower clamp: on
  \<open>leaky_logging_project\<close> six rule matches give the score -2.
\<close>

theorem logging_score_below_zero:
  "fst (check_logging_security leaky_logging_project init_results) = Inr (- 2) \<and>
   map_of (scores (snd (check_logging_security leaky_logging_project init_results)))
     ''logging_security'' = Some (- 2)"
  by code_simp

text \<open>
  C2, as amended.  For every snapshot and every state of the results, a check that returns a
  score has stored that score under its key; the score is at most 10 for all eight checks,
  and at least 0 for every check other than the logging check.
\<close>

theorem check_scores_bounds:
  "(fst (check_file_permissions s r) = Inr sc \<longrightarrow>
      0 \<le> sc \<and> sc \<le> 10 \<and>
      map_of (scores (snd (check_file_permissions s r))) ''file_permissions'' = Some sc) \<and>
   (fst (check_environment_variables s r) = Inr sc \<longrightarrow>
      0 \<le> sc \<and> sc \<le> 10 \<and>
      map_of (scores (snd (check_environment_variables s r))) ''environment_variables'' = Some sc) \<and>
   (fst (check_authentication_config s r) = Inr sc \<longrightarrow>
      0 \<le> sc \<and> sc \<le> 10 \<and>
      map_of (scores (snd (check_authentication_config s r))) ''authentication'' = Some sc) \<and>
   (fst (check_rate_limiting s r) = Inr sc \<longrightarrow>
      0 \<le> sc \<and> sc \<le> 10 \<and>
      map_of (scores (snd (check_rate_limiting s r))) ''rate_limiting'' = Some sc) \<and>
   (fst (check_input_validation s r) = Inr sc \<longrightarrow>
      0 \<le> sc \<and> sc \<le> 10 \<and>
      map_of (scores (snd (check_input_validation s r))) ''input_validation'' = Some sc) \<and>
   (fst (check_logging_security s r) = Inr sc \<longrightarrow>
      sc \<le> 10 \<and>
      map_of (scores (snd (check_logging_security s r))) ''logging_security'' = Some sc) \<and>
   (fst (check_dependency_security s r) = Inr sc \<longrightarrow>
      0 \<le> sc \<and> sc \<le> 10 \<and>
      map_of (scores (snd (check_dependency_security s r))) ''dependency_security'' = Some sc) \<and>
   (fst (check_ci_security s r) = Inr sc \<longrightarrow>
      0 \<le> sc \<and> sc \<le> 10 \<and>
      map_of (scores (snd (check_ci_security s r))) ''ci_security'' = Some sc)"
proof -
  have pair: "\<And>(p :: (exn + int) \<times> results) v. fst p = Inr v \<Longrightarrow> p = (Inr v, snd p)"
    by (metis prod.collapse)
  have c1: "fst (check_file_permissions s r) = Inr sc \<longrightarrow>
      0 \<le> sc \<and> sc \<le> 10 \<and>
      map_of (scores (snd (check_file_permissions s r))) ''file_permissions'' = Some sc"
    using file_permissions_score [OF pair] by fastforce
  have c2: "fst (check_environment_variables s r) = Inr sc \<longrightarrow>
      0 \<le> sc \<and> sc \<le> 10 \<and>
      map_of (scores (snd (check_environment_variables s r))) ''environment_variables'' = Some sc"
    using environment_variables_score [OF pair] by fastforce
  have c3: "fst (check_authentication_config s r) = Inr sc \<longrightarrow>
      0 \<le> sc \<and> sc \<le> 10 \<and>
      map_of (scores (snd (check_authentication_config s r))) ''authentication'' = Some sc"
    using authentication_score [OF pair] by fastforce
  have c4: "fst (check_rate_limiting s r) = Inr sc \<longrightarrow>
      0 \<le> sc \<and> sc \<le> 10 \<and>
      map_of (scores (snd (check_rate_limiting s r))) ''rate_limiting'' = Some sc"
    using rate_limiting_score [OF pair] by fastforce
  have c5: "fst (check_input_validation s r) = Inr sc \<longrightarrow>
      0 \<le> sc \<and> sc \<le> 10 \<and>
      map_of (scores (snd (check_input_validation s r))) ''input_validation'' = Some sc"
    using input_validation_score [OF pair] by fastforce
  have c6: "fst (check_logging_security s r) = Inr sc \<longrightarrow>
      sc \<le> 10 \<and>
      map_of (scores (snd (check_logging_security s r))) ''logging_security'' = Some sc"
    using logging_security_score [OF pair] by fastforce
  have c7: "fst (check_dependency_security s r) = Inr sc \<longrightarrow>
      0 \<le> sc \<and> sc \<le> 10 \<and>
      map_of (scores (snd (check_dependency_security s r))) ''dependency_security'' = Some sc"
    using dependency_security_score [OF pair] by fastforce
  have c8: "fst (check_ci_security s r) = Inr sc \<longrightarrow>
      0 \<le> sc \<and> sc \<le> 10 \<and>
      map_of (scores (snd (check_ci_security s r))) ''ci_security'' = Some sc"
    using ci_security_score [OF pair] by fastforce
  from c1 c2 c3 c4 c5 c6 c7 c8 show ?thesis by blast
qed

theorem check_scores_bounds_witness:
  "fst (check_file_permissions leaky_logging_project init_results) = Inr 10 \<and>
   map_of (scores (snd (check_file_permissions leaky_logging_project init_results)))
     ''file_permissions'' = Some 10 \<and>
   fst (check_environment_variables leaky_logging_project init_results) = Inr 8 \<and>
   map_of (scores (snd (check_environment_variables leaky_logging_project init_results)))
     ''environment_variables'' = Some 8 \<and>
   fst (check_authentication_config leaky_logging_project init_results) = Inr 0 \<and>
   map_of (scores (snd (check_authentication_config leaky_logging_project init_results)))
     ''authentication'' = Some 0 \<and>
   fst (check_rate_limiting leaky_logging_project init_results) = Inr 0 \<and>
   map_of (scores (snd (check_rate_limiting leaky_logging_project init_results)))
     ''rate_limiting'' = Some 0 \<and>
   fst (check_input_validation leaky_logging_project init_results) = Inr 0 \<and>
   map_of (scores (snd (check_input_validation leaky_logging_project init_results)))
     ''input_validation'' = Some 0 \<and>
   fst (check_logging_security leaky_logging_project init_results) = Inr (- 2) \<and>
   map_of (scores (snd (check_logging_security leaky_logging_project init_results)))
     ''logging_security'' = Some (- 2) \<and>
   fst (check_dependency_security leaky_logging_project init_results) = Inr 0 \<and>
   map_of (scores (snd (check_dependency_security leaky_logging_project init_results)))
     ''dependency_security'' = Some 0 \<and>
   fst (check_ci_security leaky_logging_project init_results) = Inr 0 \<and>
   map_of (scores (snd (check_ci_security leaky_logging_project init_results)))
     ''ci_security'' = Some 0"
proof -
  have e1: "fst (check_file_permissions leaky_logging_project init_results) = Inr 10"
    by code_simp
  have e2: "fst (check_environment_variables leaky_logging_project init_results) = Inr 8"
    by code_simp
  have e3: "fst (check_authentication_config leaky_logging_project init_results) = Inr 0"
    by code_simp
  have e4: "fst (check_rate_limiting leaky_logging_project init_results) = Inr 0"
    by code_simp
  have e5: "fst (check_input_validation leaky_logging_project init_results) = Inr 0"
    by code_simp
  have e6: "fst (check_logging_security leaky_logging_project init_results) = Inr (- 2)"
    by code_simp
  have e7: "fst (check_dependency_security leaky_logging_project init_results) = Inr 0"
    by code_simp
  have e8: "fst (check_ci_security leaky_logging_project init_results) = Inr 0"
    by code_simp
  show ?thesis
    using e1 e2 e3 e4 e5 e6 e7 e8
      check_scores_bounds [of leaky_logging_project init_results 10]
      check_scores_bounds [of leaky_logging_project init_results 8]
      check_scores_bounds [of leaky_logging_project init_results 0]
      check_scores_bounds [of leaky_logging_project init_results "- 2"]
    by simp
qed

text \<open>
  C6.  Claim: in every check that reads files, a read that fails with a permission or
  decoding error is recovered inside the check: the file contributes nothing, no issue is
  raised, and the check completes; this includes the presence checks.

  The secret-scanning and logging checks do so.  The helpers of the presence checks read
  without a guard: on \<open>unreadable_handler_project\<close> the authentication check ends with the
  \<open>PermissionError\<close> and stores no score, while the logging check, reading the same file,
  completes with 10.
\<close>

theorem unreadable_file_aborts_authentication:
  "check_authentication_config unreadable_handler_project init_results =
     (Inl (PermissionError ''[Errno 13] Permission denied''), init_results) \<and>
   fst (check_logging_security unreadable_handler_project init_results) = Inr 10 \<and>
   issues (snd (check_logging_security unreadable_handler_project init_results)) = []"
  by code_simp

section \<open>What the checks and the runner do to the scores dictionary\<close>

lemma scores_log_issue [simp]: "scores (log_issue c sev msg recom r) = scores r"
  by (simp add: log_issue_def)

lemma scores_log_recommendation [simp]: "scores (log_recommendation c msg r) = scores r"
  by (simp add: log_recommendation_def)

lemma scores_set_score [simp]: "scores (set_score k v r) = AList.update k v (scores r)"
  by (simp add: set_score_def)







lemma scores_log_patterns_loop [simp]:
  "scores (snd (log_patterns_loop f content ps sc0 r)) = scores r"
  by (induction ps arbitrary: sc0 r) auto














section \<open>The claims about aggregation and the runner\<close>




text \<open>
  C3.  Claim: in every report the total is the sum of the recorded per-check scores and the
  maximum is 10 times the number of registered checks (eight), also when checks fail.

  The total is the sum of the recorded scores (\<open>generate_report_fields\<close>).  The maximum is 10
  times the number of recorded scores: on \<open>unreadable_handler_project\<close> three of the eight
  registered checks raise, five scores are recorded, and the report says 28 of 50 (56
  percent), while the summary printed by \<open>run_all_checks\<close> itself says 28 of 80 (35
  percent).
\<close>

theorem failed_checks_shrink_max_score:
  "length (checks unreadable_handler_project) = 8 \<and>
   overall_score (run unreadable_handler_project ''2026-11-04T10:00:00'') = Some 28 \<and>
   max_score (run unreadable_handler_project ''2026-11-04T10:00:00'') = Some 50 \<and>
   percentage (run unreadable_handler_project ''2026-11-04T10:00:00'') = Some 56 \<and>
   printed_summary unreadable_handler_project init_results = (28, 80, 35)"
  by code_simp



text \<open>
  C5.  Claim: when a check raises, the runner catches the exception, records a critical
  \<open>SystemError\<close> issue, records the score 0 for that check in the per-check scores, and goes
  on with the remaining checks.

  The runner catches, records the issue and goes on, and its own running total counts the
  check as 0 of 10; but nothing is written to the scores dictionary.  On
  \<open>unreadable_handler_project\<close> the authentication, rate-limiting and input-validation checks
  raise: each has its issue, none has a score, and the checks after them are recorded.
\<close>

theorem failed_check_has_no_score:
  "issues (run unreadable_handler_project ''2026-11-04T10:00:00'') ! 0 =
     \<lparr>component = ''SystemError'', severity = ''critical'',
      message = ''Check failed: Authentication - [Errno 13] Permission denied'',
      recommendation = []\<rparr> \<and>
   map_of (scores (run unreadable_handler_project ''2026-11-04T10:00:00'')) ''authentication''
     = None \<and>
   scores (run unreadable_handler_project ''2026-11-04T10:00:00'') =
     [(''file_permissions'', 10), (''environment_variables'', 8), (''logging_security'', 10),
      (''dependency_security'', 0), (''ci_security'', 0)] \<and>
   fst (printed_summary unreadable_handler_project init_results) = 28"
  by code_simp



section \<open>Dictionaries of checks and the analysis\<close>

lemma by_name_snoc: "by_name (cs @ [c]) = AList.update (name c) c (by_name cs)"
  by (simp add: by_name_def)

lemma distinct_by_name: "distinct (map fst (by_name cs))"
  by (induction cs rule: rev_induct) (simp_all add: by_name_def distinct_update)

lemma map_of_by_name:
  "map_of (by_name cs) n =
     (if n \<in> name ` set cs then Some (last (filter (\<lambda>c. name c = n) cs)) else None)"
proof (induction cs rule: rev_induct)
  case Nil
  show ?case by (simp add: by_name_def)
next
  case (snoc c cs)
  show ?case
    by (simp add: by_name_snoc update_conv' snoc.IH)
qed

lemma foldl_update_distinct:
  assumes "distinct (map fst an)"
  shows "distinct (map fst (foldl (\<lambda>an (k, v). if P k then AList.update k (g k v) an else an)
                             an xs))"
  using assms
proof (induction xs arbitrary: an)
  case Nil
  then show ?case by simp
next
  case (Cons x xs)
  obtain k v where x: "x = (k, v)" by (cases x)
  show ?case
    using Cons.prems by (simp add: x Cons.IH distinct_update)
qed

lemma foldl_update_map_of:
  assumes "distinct (map fst xs)"
  shows "map_of (foldl (\<lambda>an (k, v). if P k then AList.update k (g k v) an else an) an xs) n =
           (case map_of xs n of
              Some v \<Rightarrow> if P n then Some (g n v) else map_of an n
            | None \<Rightarrow> map_of an n)"
  using assms
proof (induction xs arbitrary: an)
  case Nil
  show ?case by simp
next
  case (Cons x xs)
  obtain k v where x: "x = (k, v)" by (cases x)
  from Cons.prems x have k: "map_of xs k = None" and d: "distinct (map fst xs)"
    by (simp_all add: map_of_eq_None_iff)
  show ?case
  proof (cases "n = k")
    case True
    have ih: "map_of (foldl (\<lambda>an (k, v). if P k then AList.update k (g k v) an else an)
                        an' xs) k = map_of an' k" for an'
      using Cons.IH [OF d, of an'] k True by simp
    show ?thesis
      using True by (simp add: x ih update_conv')
  next
    case False
    then show ?thesis
      by (simp add: x Cons.IH [OF d] update_conv' split: option.splits)
  qed
qed

lemma analyze_individual_checks_alt:
  "analyze_individual_checks current_checks baseline_checks =
     foldl (\<lambda>an (k, v). if map_of (by_name current_checks) k = None
                         then AList.update k (missing_analysis v) an else an)
       (foldl (\<lambda>an (k, v). if True
                           then AList.update k
                                  (current_analysis (by_name baseline_checks) k v) an
                           else an)
          [] (by_name current_checks))
       (by_name baseline_checks)"
  by (simp add: analyze_individual_checks_def Let_def)

lemma distinct_analysis:
  "distinct (map fst (analyze_individual_checks current_checks baseline_checks))"
  unfolding analyze_individual_checks_alt
  by (intro foldl_update_distinct) simp

lemma missing_in_analysis:
  assumes "n \<in> name ` set baseline_checks" and "n \<notin> name ` set current_checks"
  shows "map_of (analyze_individual_checks current_checks baseline_checks) n =
           Some (missing_analysis (last (filter (\<lambda>c. name c = n) baseline_checks)))"
  unfolding analyze_individual_checks_alt
  using assms
  by (simp add: foldl_update_map_of [OF distinct_by_name] map_of_by_name)

section \<open>The action list before and after sorting\<close>

lemma collect_actions_acc:
  "collect_actions an acts = acts @ List.map_filter (\<lambda>(n, d). action_for n d) an"
proof (induction an arbitrary: acts)
  case Nil
  show ?case by simp
next
  case (Cons x an)
  obtain n d where x: "x = (n, d)" by (cases x)
  show ?case
    by (simp add: x Cons.IH split: option.splits)
qed

lemma check_action_for: "action_for n d = Some a \<Longrightarrow> check a = n"
  by (auto simp: action_for_def make_action_def split: if_splits)

lemma no_action_without_entry:
  "n \<notin> fst ` set an \<Longrightarrow> filter (\<lambda>a. check a = n) (collect_actions an []) = []"
proof (induction an)
  case Nil
  show ?case by simp
next
  case (Cons x an)
  obtain k d where x: "x = (k, d)" by (cases x)
  from Cons.prems x have nk: "k \<noteq> n" and rest: "n \<notin> fst ` set an" by auto
  have "filter (\<lambda>a. check a = n) (List.map_filter (\<lambda>(n, d). action_for n d) an) = []"
    using Cons.IH [OF rest] by (simp add: collect_actions_acc)
  then show ?case
    using nk by (auto simp: x collect_actions_acc
                      split: option.splits dest: check_action_for)
qed

lemma actions_of_entry:
  assumes "distinct (map fst an)" and "(n, d) \<in> set an"
  shows "filter (\<lambda>a. check a = n) (collect_actions an []) =
           (case action_for n d of Some a \<Rightarrow> [a] | None \<Rightarrow> [])"
  using assms
proof (induction an)
  case Nil
  then show ?case by simp
next
  case (Cons x an)
  obtain k e where x: "x = (k, e)" by (cases x)
  from Cons.prems x have kd: "k \<notin> fst ` set an" and dist: "distinct (map fst an)"
    by auto
  show ?case
  proof (cases "k = n")
    case True
    with Cons.prems x kd have e: "e = d"
      by (metis fst_conv image_eqI set_ConsD snd_conv)
    have "filter (\<lambda>a. check a = n) (collect_actions an []) = []"
      using kd True by (intro no_action_without_entry) simp
    then have "filter (\<lambda>a. check a = n) (List.map_filter (\<lambda>(n, d). action_for n d) an) = []"
      by (simp add: collect_actions_acc)
    then show ?thesis
      using True e
      by (auto simp: x collect_actions_acc
               split: option.splits dest: check_action_for)
  next
    case False
    with Cons.prems x have mem: "(n, d) \<in> set an" by auto
    have "filter (\<lambda>a. check a = n) (List.map_filter (\<lambda>(n, d). action_for n d) an) =
            (case action_for n d of Some a \<Rightarrow> [a] | None \<Rightarrow> [])"
      using Cons.IH [OF dist mem] by (simp add: collect_actions_acc)
    then show ?thesis
      using False
      by (auto simp: x collect_actions_acc
               split: option.splits dest: check_action_for)
  qed
qed

lemma sorted_actions_of_entry:
  assumes "distinct (map fst an)" and "(n, d) \<in> set an"
  shows "filter (\<lambda>a. check a = n) (identify_priority_actions an) =
           (case action_for n d of Some a \<Rightarrow> [a] | None \<Rightarrow> [])"
proof -
  have "filter (\<lambda>a. check a = n) (identify_priority_actions an) =
          sort_key sort_key_of (filter (\<lambda>a. check a = n) (collect_actions an []))"
    by (simp add: identify_priority_actions_def filter_sort)
  also have "\<dots> = sort_key sort_key_of (case action_for n d of Some a \<Rightarrow> [a] | None \<Rightarrow> [])"
    by (simp add: actions_of_entry [OF assms])
  also have "\<dots> = (case action_for n d of Some a \<Rightarrow> [a] | None \<Rightarrow> [])"
    by (simp split: option.splits)
  finally show ?thesis .
qed

section \<open>The claims about the priority actions\<close>

text \<open>
  C8.  Claim: a check that is in the baseline and absent from the current results gets a
  high-priority \<open>restore_check\<close> action whose score difference is the negation of the
  baseline score; a baseline score of 8 gives the difference -8.

  The baseline entry of a name is the last check of that name in the baseline list (the one
  the dictionary keeps), and a check without a \<open>score\<close> key counts as 0.  The action is the
  only one for that check.
\<close>

theorem missing_check_restore_action:
  assumes "n \<in> name ` set baseline_checks" and "n \<notin> name ` set current_checks"
  shows "filter (\<lambda>a. check a = n)
           (identify_priority_actions
              (analyze_individual_checks current_checks baseline_checks)) =
         [\<lparr>check = n, priority = High, action = Restore_check,
           action_current_score = 0,
           action_baseline_score =
             get_or (score (last (filter (\<lambda>c. name c = n) baseline_checks))) 0,
           action_diff =
             - get_or (score (last (filter (\<lambda>c. name c = n) baseline_checks))) 0,
           action_reason = ''Check not found in current results''\<rparr>]"
proof -
  let ?an = "analyze_individual_checks current_checks baseline_checks"
  let ?d = "missing_analysis (last (filter (\<lambda>c. name c = n) baseline_checks))"
  have "map_of ?an n = Some ?d"
    using assms by (rule missing_in_analysis)
  then have mem: "(n, ?d) \<in> set ?an"
    by (rule map_of_SomeD)
  have "action_for n ?d = Some (make_action n High Restore_check ?d)"
    by (simp add: action_for_def missing_analysis_def)
  then have "filter (\<lambda>a. check a = n) (identify_priority_actions ?an) =
               [make_action n High Restore_check ?d]"
    using sorted_actions_of_entry [OF distinct_analysis mem] by simp
  then show ?thesis
    by (simp add: make_action_def missing_analysis_def)
qed

theorem missing_check_restore_action_witness:
  "''Fuzzing'' \<in> name ` set baseline_card \<and> ''Fuzzing'' \<notin> name ` set current_card \<and>
   filter (\<lambda>a. check a = ''Fuzzing'')
     (identify_priority_actions (analyze_individual_checks current_card baseline_card)) =
   [\<lparr>check = ''Fuzzing'', priority = High, action = Restore_check,
     action_current_score = 0, action_baseline_score = 8, action_diff = - 8,
     action_reason = ''Check not found in current results''\<rparr>]"
proof -
  have h1: "''Fuzzing'' \<in> name ` set baseline_card"
    by (simp add: baseline_card_def entry_def)
  have h2: "''Fuzzing'' \<notin> name ` set current_card"
    by (simp add: current_card_def entry_def)
  have b: "get_or (score (last (filter (\<lambda>c. name c = ''Fuzzing'') baseline_card))) 0 = 8"
    by (simp add: baseline_card_def entry_def get_or_def)
  show ?thesis
    using h1 h2 missing_check_restore_action [OF h1 h2] unfolding b by simp
qed

text \<open>
  C9.  Claim: the action list is sorted by priority rank ascending (high, then medium, then
  low) and, within a priority, by score difference ascending; equal keys keep the original
  order of the checks, so ranking the same analysis twice gives the same sequence.

  The list before sorting holds the actions in the order of the analysis; sorting keeps, for
  every pair of priority and difference, the actions with that pair in that order, and
  changes neither the length nor the set of actions.
\<close>

theorem priority_actions_sorted_stable:
  "(\<forall>i j. i < j \<and> j < length (identify_priority_actions analysis) \<longrightarrow>
      priority_order (priority (identify_priority_actions analysis ! i)) <
        priority_order (priority (identify_priority_actions analysis ! j)) \<or>
      priority (identify_priority_actions analysis ! i) =
        priority (identify_priority_actions analysis ! j) \<and>
      action_diff (identify_priority_actions analysis ! i) \<le>
        action_diff (identify_priority_actions analysis ! j)) \<and>
   (\<forall>p d. filter (\<lambda>a. priority a = p \<and> action_diff a = d)
            (identify_priority_actions analysis) =
          filter (\<lambda>a. priority a = p \<and> action_diff a = d)
            (List.map_filter (\<lambda>(n, data). action_for n data) analysis)) \<and>
   length (identify_priority_actions analysis) =
     length (List.map_filter (\<lambda>(n, data). action_for n data) analysis) \<and>
   set (identify_priority_actions analysis) =
     set (List.map_filter (\<lambda>(n, data). action_for n data) analysis) \<and>
   priority_order High < priority_order Medium \<and> priority_order Medium < priority_order Low"
proof -
  let ?out = "identify_priority_actions analysis"
  let ?un = "List.map_filter (\<lambda>(n, data). action_for n data) analysis"
  have out: "?out = sort_key sort_key_of ?un"
    by (simp add: identify_priority_actions_def collect_actions_acc)
  have inj: "priority_order p = priority_order q \<longleftrightarrow> p = q" for p q
    by (cases p; cases q) simp_all
  have "sorted (map sort_key_of ?out)"
    unfolding out by (rule sorted_sort_key)
  then have nth: "\<forall>i j. i < j \<longrightarrow> j < length ?out \<longrightarrow> sort_key_of (?out ! i) \<le> sort_key_of (?out ! j)"
    by (simp add: sorted_iff_nth_mono_less)
  have ordered: "\<forall>i j. i < j \<and> j < length ?out \<longrightarrow>
      priority_order (priority (?out ! i)) < priority_order (priority (?out ! j)) \<or>
      priority (?out ! i) = priority (?out ! j) \<and>
      action_diff (?out ! i) \<le> action_diff (?out ! j)"
  proof (intro allI impI)
    fix i j
    assume ij: "i < j \<and> j < length ?out"
    with nth have "sort_key_of (?out ! i) \<le> sort_key_of (?out ! j)" by blast
    then have "priority_order (priority (?out ! i)) < priority_order (priority (?out ! j)) \<or>
               priority_order (priority (?out ! i)) = priority_order (priority (?out ! j)) \<and>
               action_diff (?out ! i) \<le> action_diff (?out ! j)"
      by (auto simp: sort_key_of_def less_eq_prod_def)
    then show "priority_order (priority (?out ! i)) < priority_order (priority (?out ! j)) \<or>
               priority (?out ! i) = priority (?out ! j) \<and>
               action_diff (?out ! i) \<le> action_diff (?out ! j)"
      by (simp add: inj)
  qed
  have stable: "\<forall>p d. filter (\<lambda>a. priority a = p \<and> action_diff a = d) ?out =
                       filter (\<lambda>a. priority a = p \<and> action_diff a = d) ?un"
  proof (intro allI)
    fix p d
    have same: "(\<lambda>a. priority a = p \<and> action_diff a = d) =
                (\<lambda>a. sort_key_of a = (priority_order p, d))"
      by (auto simp: sort_key_of_def inj)
    show "filter (\<lambda>a. priority a = p \<and> action_diff a = d) ?out =
          filter (\<lambda>a. priority a = p \<and> action_diff a = d) ?un"
      unfolding same out by (rule sort_key_stable)
  qed
  have "length ?out = length ?un" and "set ?out = set ?un"
    unfolding out by simp_all
  with ordered stable show ?thesis by simp
qed

theorem priority_actions_sorted_stable_witness:
  "map check (identify_priority_actions (analyze_individual_checks current_card baseline_card))
     = [''Fuzzing'', ''Vulnerabilities'', ''License'', ''Maintained'', ''Code-Review''] \<and>
   map check (filter (\<lambda>a. priority a = Medium \<and> action_diff a = - 2)
     (List.map_filter (\<lambda>(n, data). action_for n data)
        (analyze_individual_checks current_card baseline_card)))
     = [''License'', ''Maintained''] \<and>
   map check (filter (\<lambda>a. priority a = Medium \<and> action_diff a = - 2)
     (identify_priority_actions (analyze_individual_checks current_card baseline_card)))
     = [''License'', ''Maintained''] \<and>
   (1::nat) < 4 \<and>
   4 < length (identify_priority_actions (analyze_individual_checks current_card baseline_card)) \<and>
   priority_order (priority
     (identify_priority_actions (analyze_individual_checks current_card baseline_card) ! 1)) <
   priority_order (priority
     (identify_priority_actions (analyze_individual_checks current_card baseline_card) ! 4))"
proof -
  let ?an = "analyze_individual_checks current_card baseline_card"
  have e1: "map check (identify_priority_actions ?an) =
              [''Fuzzing'', ''Vulnerabilities'', ''License'', ''Maintained'', ''Code-Review'']"
    by code_simp
  have e2: "map check (filter (\<lambda>a. priority a = Medium \<and> action_diff a = - 2)
              (List.map_filter (\<lambda>(n, data). action_for n data) ?an)) =
              [''License'', ''Maintained'']"
    by code_simp
  have e3: "priority (identify_priority_actions ?an ! 1) = High"
    by code_simp
  have e4: "priority (identify_priority_actions ?an ! 4) = Medium"
    by code_simp
  have len: "length (identify_priority_actions ?an) = 5"
    using arg_cong [OF e1, of length] by simp
  from priority_actions_sorted_stable [of ?an]
  have st: "filter (\<lambda>a. priority a = Medium \<and> action_diff a = - 2) (identify_priority_actions ?an) =
            filter (\<lambda>a. priority a = Medium \<and> action_diff a = - 2)
              (List.map_filter (\<lambda>(n, data). action_for n data) ?an)"
    by blast
  show ?thesis
    using e1 e2 e3 e4 len st by simp
qed



end
